theory Spec2Isabelle
  imports Main "HOL-Library.AList"
begin

section \<open>Python values the adapters handle\<close>

text \<open>
  A Python \<open>dict\<close> keeps its keys in insertion order and holds each key once: storing
  under a key that is present replaces the value where the key stands, storing under a
  new key appends. That is \<open>AList.update\<close> on an association list. \<open>d.get(k)\<close> is
  \<open>map_of d k\<close>, \<open>k in d\<close> is \<open>k \<in> fst ` set d\<close>, \<open>d.items()\<close> is the list itself.
\<close>

type_synonym ('k, 'v) dict = "('k \<times> 'v) list"

definition dict_setitem :: "'k \<Rightarrow> 'v \<Rightarrow> ('k, 'v) dict \<Rightarrow> ('k, 'v) dict" where
  "dict_setitem k v d = AList.update k v d"

text \<open>
  A dict display \<open>{k1: v1, k2: v2, ...}\<close> and a dict comprehension both store their
  entries from left to right into an empty dict, so a later entry with an equal key wins.
\<close>

definition dict_of_items :: "('k \<times> 'v) list \<Rightarrow> ('k, 'v) dict" where
  "dict_of_items kvs = foldl (\<lambda>d (k, v). dict_setitem k v d) [] kvs"

datatype error =
    ValueError string
  | KeyError string
  | AttributeError string
  | TypeError
  | IndexError

section \<open>humidifier.py: the mode tables\<close>

text \<open>
  The mode strings are imported: \<open>VS_MODE_*\<close> from the integration's \<open>const\<close> module,
  \<open>MODE_*\<close> from the host platform. Neither module is among the sources, so the tables
  take the seven strings as a parameter.
\<close>

record mode_names =
  VS_MODE_AUTO :: string
  VS_MODE_HUMIDITY :: string
  VS_MODE_MANUAL :: string
  VS_MODE_SLEEP :: string
  MODE_AUTO :: string
  MODE_NORMAL :: string
  MODE_SLEEP :: string

definition MAX_HUMIDITY :: int where
  "MAX_HUMIDITY = 80"

definition MIN_HUMIDITY :: int where
  "MIN_HUMIDITY = 30"

definition VS_TO_HA_MODE_MAP :: "mode_names \<Rightarrow> (string, string) dict" where
  "VS_TO_HA_MODE_MAP n = dict_of_items
     [(VS_MODE_AUTO n, MODE_AUTO n),
      (VS_MODE_HUMIDITY n, MODE_AUTO n),
      (VS_MODE_MANUAL n, MODE_NORMAL n),
      (VS_MODE_SLEEP n, MODE_SLEEP n)]"

text \<open>\<^verbatim>\<open>HA_TO_VS_MODE_MAP = {v: k for k, v in VS_TO_HA_MODE_MAP.items()}\<close>\<close>

definition HA_TO_VS_MODE_MAP :: "mode_names \<Rightarrow> (string, string) dict" where
  "HA_TO_VS_MODE_MAP n = dict_of_items (map (\<lambda>(k, v). (v, k)) (VS_TO_HA_MODE_MAP n))"

text \<open>
  The strings the vendor library and the host platform use for these modes; at them the
  tables are evaluated in the examples below. No general theorem depends on them.
\<close>

definition vesync_names :: mode_names where
  "vesync_names = \<lparr>VS_MODE_AUTO = ''auto'', VS_MODE_HUMIDITY = ''humidity'',
     VS_MODE_MANUAL = ''manual'', VS_MODE_SLEEP = ''sleep'',
     MODE_AUTO = ''auto'', MODE_NORMAL = ''normal'', MODE_SLEEP = ''sleep''\<rparr>"

text \<open>
  \<^verbatim>\<open>_LOGGER.warning("Unknown mode '%s'", m)\<close>: the log is the list of the messages
  written so far, oldest first.
\<close>

definition unknown_mode_warning :: "string \<Rightarrow> string" where
  "unknown_mode_warning m = ''Unknown mode '' @ [CHR 0x27] @ m @ [CHR 0x27]"

text \<open>
  \<open>_get_ha_mode\<close> and \<open>_get_vs_mode\<close> (an Isabelle name cannot start with an
  underscore). Each takes the log and returns the looked-up mode, \<open>None\<close> for Python's
  \<open>None\<close>, with the log after the call. Neither body has a \<open>raise\<close>.
\<close>

definition get_ha_mode :: "mode_names \<Rightarrow> string \<Rightarrow> string list \<Rightarrow> string option \<times> string list" where
  "get_ha_mode n vs_mode lg =
     (let ha_mode = map_of (VS_TO_HA_MODE_MAP n) vs_mode in
      if ha_mode = None then (ha_mode, lg @ [unknown_mode_warning vs_mode])
      else (ha_mode, lg))"

definition get_vs_mode :: "mode_names \<Rightarrow> string \<Rightarrow> string list \<Rightarrow> string option \<times> string list" where
  "get_vs_mode n ha_mode lg =
     (let vs_mode = map_of (HA_TO_VS_MODE_MAP n) ha_mode in
      if vs_mode = None then (vs_mode, lg @ [unknown_mode_warning ha_mode])
      else (vs_mode, lg))"

section \<open>humidifier.py: the adapter\<close>

text \<open>
  The vendor object as the adapter uses it. \<open>mist_modes\<close> is read through a
  \<open>cached_property\<close>, so the adapter takes it as fixed for its lifetime. The four
  command methods act on the vendor's own state \<open>'v\<close> and return a success indicator.
\<close>

record 'v humidifier =
  mist_modes :: "string list option"
  vs_set_humidity :: "int \<Rightarrow> 'v \<Rightarrow> bool \<times> 'v"
  vs_set_humidity_mode :: "string option \<Rightarrow> 'v \<Rightarrow> bool \<times> 'v"
  vs_turn_on :: "'v \<Rightarrow> bool \<times> 'v"
  vs_turn_off :: "'v \<Rightarrow> bool \<times> 'v"

datatype vendor_call =
    SetHumidity int
  | SetHumidityMode "string option"
  | TurnOn
  | TurnOff

text \<open>
  Everything a command of the adapter can change: the vendor's state and the trace of
  the vendor command methods invoked, the log, the number of
  \<open>schedule_update_ha_state\<close> calls, and the cache of \<open>available_modes\<close>
  (\<open>None\<close> until the property is first read).
\<close>

record 'v world =
  vs_state :: 'v
  vs_calls :: "vendor_call list"
  log :: "string list"
  ha_state_updates :: nat
  modes_cache :: "string list option"

text \<open>A new adapter on a device: nothing called, logged, scheduled or cached yet.\<close>

definition new_world :: "'v \<Rightarrow> 'v world" where
  "new_world s = \<lparr>vs_state = s, vs_calls = [], log = [], ha_state_updates = 0,
     modes_cache = None\<rparr>"

text \<open>The loop of \<open>available_modes\<close>, with the list \<open>modes\<close> it appends to.\<close>

fun available_modes_loop ::
  "mode_names \<Rightarrow> string list \<Rightarrow> string list \<Rightarrow> string list \<Rightarrow> string list \<times> string list" where
  "available_modes_loop n [] modes lg = (modes, lg)"
| "available_modes_loop n (vs_mode # rest) modes lg =
     (case get_ha_mode n vs_mode lg of
        (None, lg') \<Rightarrow> available_modes_loop n rest modes lg'
      | (Some ha_mode, lg') \<Rightarrow> available_modes_loop n rest (modes @ [ha_mode]) lg')"

text \<open>The body of the property: what the first read computes.\<close>

definition available_modes_body ::
  "mode_names \<Rightarrow> 'v humidifier \<Rightarrow> string list \<Rightarrow> string list \<times> string list" where
  "available_modes_body n h lg =
     (case mist_modes h of
        None \<Rightarrow> ([], lg)
      | Some vs_modes \<Rightarrow> available_modes_loop n vs_modes [] lg)"

text \<open>\<open>@cached_property\<close>: the first read runs the body and stores its result; later
  reads return the stored list.\<close>

definition available_modes ::
  "mode_names \<Rightarrow> 'v humidifier \<Rightarrow> 'v world \<Rightarrow> string list \<times> 'v world" where
  "available_modes n h w =
     (case modes_cache w of
        Some modes \<Rightarrow> (modes, w)
      | None \<Rightarrow>
          (case available_modes_body n h (log w) of
             (modes, lg) \<Rightarrow> (modes, w\<lparr>log := lg, modes_cache := Some modes\<rparr>)))"

text \<open>
  \<open>x in range(lo, hi)\<close> for an integer \<open>x\<close>. In \<open>set_humidity\<close> the bounds are
  \<open>self.min_humidity\<close> and \<open>self.max_humidity + 1\<close>; the two properties of the host
  entity read the class attributes \<open>_attr_min_humidity = MIN_HUMIDITY\<close> and
  \<open>_attr_max_humidity = MAX_HUMIDITY\<close>.
\<close>

definition in_range :: "int \<Rightarrow> int \<Rightarrow> int \<Rightarrow> bool" where
  "in_range x lo hi = (lo \<le> x \<and> x < hi)"

text \<open>
  The commands. Each returns \<open>Inr ()\<close> when the method returns, \<open>Inl e\<close> when it raises
  \<open>e\<close>, with the world as the call leaves it. The messages of the two validation errors
  are plain string literals in the source (no \<open>f\<close> prefix), so the braces stay.
\<close>

definition set_humidity :: "'v humidifier \<Rightarrow> int \<Rightarrow> 'v world \<Rightarrow> (error + unit) \<times> 'v world" where
  "set_humidity h humidity w =
     (if \<not> in_range humidity MIN_HUMIDITY (MAX_HUMIDITY + 1) then
        (Inl (ValueError
           ''{humidity} is not between {self.min_humidity} and {self.max_humidity} (inclusive)''), w)
      else
        (case vs_set_humidity h humidity (vs_state w) of
           (ok, s) \<Rightarrow>
             (let w1 = w\<lparr>vs_state := s, vs_calls := vs_calls w @ [SetHumidity humidity]\<rparr> in
              if ok then (Inr (), w1\<lparr>ha_state_updates := Suc (ha_state_updates w1)\<rparr>)
              else (Inl (ValueError ''An error occurred while setting humidity.''), w1))))"

definition set_mode ::
  "mode_names \<Rightarrow> 'v humidifier \<Rightarrow> string \<Rightarrow> 'v world \<Rightarrow> (error + unit) \<times> 'v world" where
  "set_mode n h mode w =
     (case available_modes n h w of
        (modes, w0) \<Rightarrow>
          if mode \<notin> set modes then
            (Inl (ValueError
               ''{mode} is not one of the valid available modes: {self.available_modes}''), w0)
          else
            (case get_vs_mode n mode (log w0) of
               (vs_mode, lg) \<Rightarrow>
                 (case vs_set_humidity_mode h vs_mode (vs_state w0) of
                    (ok, s) \<Rightarrow>
                      (let w1 = w0\<lparr>vs_state := s,
                                   vs_calls := vs_calls w0 @ [SetHumidityMode vs_mode],
                                   log := lg\<rparr> in
                       if ok then (Inr (), w1\<lparr>ha_state_updates := Suc (ha_state_updates w1)\<rparr>)
                       else (Inl (ValueError ''An error occurred while setting mode.''), w1)))))"

definition turn_on :: "'v humidifier \<Rightarrow> 'v world \<Rightarrow> (error + unit) \<times> 'v world" where
  "turn_on h w =
     (case vs_turn_on h (vs_state w) of
        (success, s) \<Rightarrow>
          (let w1 = w\<lparr>vs_state := s, vs_calls := vs_calls w @ [TurnOn]\<rparr> in
           if \<not> success then (Inl (ValueError ''An error occurred while turning on.''), w1)
           else (Inr (), w1)))"

definition turn_off :: "'v humidifier \<Rightarrow> 'v world \<Rightarrow> (error + unit) \<times> 'v world" where
  "turn_off h w =
     (case vs_turn_off h (vs_state w) of
        (success, s) \<Rightarrow>
          (let w1 = w\<lparr>vs_state := s, vs_calls := vs_calls w @ [TurnOff]\<rparr> in
           if \<not> success then (Inl (ValueError ''An error occurred while turning off.''), w1)
           else (Inr (), w1)))"

text \<open>
  \<open>extra_state_attributes\<close>. The rename table \<open>VS_TO_HA_ATTRIBUTES\<close> (module
  \<open>const\<close>) and the host entity's \<open>state_attributes\<close> mapping are not among the
  sources and are parameters. The loop runs over \<open>details.items()\<close> and stores into
  \<open>attr\<close>; \<open>VS_TO_HA_ATTRIBUTES[k]\<close> is read only after \<open>k in VS_TO_HA_ATTRIBUTES\<close>,
  so the test and the read are one lookup.
\<close>

fun extra_state_attributes_loop ::
  "(string, string) dict \<Rightarrow> (string, 'b) dict \<Rightarrow> (string \<times> 'a) list \<Rightarrow> (string, 'a) dict
     \<Rightarrow> (string, 'a) dict" where
  "extra_state_attributes_loop tbl sa [] attr = attr"
| "extra_state_attributes_loop tbl sa ((k, v) # kvs) attr =
     (case map_of tbl k of
        Some k' \<Rightarrow> extra_state_attributes_loop tbl sa kvs (dict_setitem k' v attr)
      | None \<Rightarrow>
          if k \<in> fst ` set sa then
            extra_state_attributes_loop tbl sa kvs (dict_setitem (''vs_'' @ k) v attr)
          else extra_state_attributes_loop tbl sa kvs (dict_setitem k v attr))"

definition extra_state_attributes ::
  "(string, string) dict \<Rightarrow> (string, 'b) dict \<Rightarrow> (string, 'a) dict \<Rightarrow> (string, 'a) dict" where
  "extra_state_attributes VS_TO_HA_ATTRIBUTES state_attributes details =
     extra_state_attributes_loop VS_TO_HA_ATTRIBUTES state_attributes details []"

text \<open>
  The three rules of the specification as one function on keys, for comparison with the
  loop above: the rename table first, then the reserved names, then the key itself.
\<close>

definition spec_rekey :: "(string, string) dict \<Rightarrow> (string, 'b) dict \<Rightarrow> string \<Rightarrow> string" where
  "spec_rekey tbl sa k =
     (if k \<in> fst ` set tbl then the (map_of tbl k)
      else if k \<in> fst ` set sa then ''vs_'' @ k
      else k)"

text \<open>
  The worlds an adapter can be in: the cache is empty, or it holds what the body of
  \<open>available_modes\<close> computes (the only assignment to the cache stores that list).
\<close>

definition cache_ok :: "mode_names \<Rightarrow> 'v humidifier \<Rightarrow> 'v world \<Rightarrow> bool" where
  "cache_ok n h w =
     (modes_cache w = None \<or> modes_cache w = Some (fst (available_modes_body n h [])))"

text \<open>
  A vendor device to evaluate the commands on. It supports four mist modes, one of them
  unknown to the tables; when \<open>online\<close> its commands succeed (a mode command only for
  a mode it supports), otherwise they report failure and change nothing.
\<close>

record vendor_state =
  power :: bool
  target :: int
  mist :: "string option"

definition example_humidifier :: "bool \<Rightarrow> vendor_state humidifier" where
  "example_humidifier online =
     \<lparr>mist_modes = Some [''auto'', ''sleep'', ''turbo'', ''manual''],
      vs_set_humidity = (\<lambda>x s. if online then (True, s\<lparr>target := x\<rparr>) else (False, s)),
      vs_set_humidity_mode = (\<lambda>m s.
         if online \<and> m \<in> Some ` set [''auto'', ''sleep'', ''turbo'', ''manual'']
         then (True, s\<lparr>mist := m\<rparr>) else (False, s)),
      vs_turn_on = (\<lambda>s. if online then (True, s\<lparr>power := True\<rparr>) else (False, s)),
      vs_turn_off = (\<lambda>s. if online then (True, s\<lparr>power := False\<rparr>) else (False, s))\<rparr>"

definition example_state :: vendor_state where
  "example_state = \<lparr>power = False, target = 45, mist = Some ''manual''\<rparr>"

section \<open>binary\_sensor.py\<close>

text \<open>
  The discovery code probes the device object by attribute name, so a device is the
  mapping from its attribute names to their values; \<open>details\<close> is one of them, a dict.
\<close>

datatype pyval =
    PyNone
  | PyBool bool
  | PyInt int
  | PyStr string
  | PyDict "(string \<times> pyval) list"

type_synonym pyobj = "(string, pyval) dict"

definition hasattr :: "pyobj \<Rightarrow> string \<Rightarrow> bool" where
  "hasattr obj name = (map_of obj name \<noteq> None)"

text \<open>\<open>getattr(obj, name, default)\<close>\<close>

definition getattr :: "pyobj \<Rightarrow> string \<Rightarrow> pyval \<Rightarrow> pyval" where
  "getattr obj name dflt = (case map_of obj name of Some v \<Rightarrow> v | None \<Rightarrow> dflt)"

text \<open>
  Modelled from the spec: \<open>has_feature\<close> of the module \<open>common\<close>, which is not among
  the sources. The specification says that a sensor adapter is created only for a device
  that exposes the capability, and that a device with no \<open>water_lacks\<close> key in its
  state mapping gets no out-of-water sensor: the test is whether the named mapping of the
  device has the key.
\<close>

definition has_feature :: "pyobj \<Rightarrow> string \<Rightarrow> string \<Rightarrow> bool" where
  "has_feature device dictionary attribute =
     (case map_of device dictionary of
        Some (PyDict d) \<Rightarrow> attribute \<in> fst ` set d
      | _ \<Rightarrow> False)"

text \<open>
  The four adapter classes. An air-fryer sensor carries its \<open>stype\<close>, an entry of
  \<open>BINARY_SENSOR_TYPES_AIRFRYER\<close>, which the class reads at the indices 0, 1 and 2.
\<close>

datatype binary_sensor =
    VeSyncairfryerSensor pyobj "string list"
  | VeSyncOutOfWaterSensor pyobj
  | VeSyncWaterTankLiftedSensor pyobj
  | VeSyncFilterOpenStateSensor pyobj

text \<open>
  \<open>_setup_entities\<close>: the list handed to \<open>async_add_entities\<close>. The table
  \<open>BINARY_SENSOR_TYPES_AIRFRYER\<close> (module \<open>const\<close>) and the helper \<open>has_feature\<close>
  (module \<open>common\<close>) are imported from modules that are not among the sources; the
  loop takes both as parameters.
\<close>

fun setup_entities_loop ::
  "(string, string list) dict \<Rightarrow> (pyobj \<Rightarrow> string \<Rightarrow> string \<Rightarrow> bool) \<Rightarrow> pyobj list
     \<Rightarrow> binary_sensor list \<Rightarrow> binary_sensor list" where
  "setup_entities_loop types hf [] entities = entities"
| "setup_entities_loop types hf (dev # devices) entities =
     (let e1 = (if hasattr dev ''fryer_status''
                then entities @ map (VeSyncairfryerSensor dev) (map snd types)
                else entities);
          e2 = (if hf dev ''details'' ''water_lacks''
                then e1 @ [VeSyncOutOfWaterSensor dev] else e1);
          e3 = (if hf dev ''details'' ''water_tank_lifted''
                then e2 @ [VeSyncWaterTankLiftedSensor dev] else e2);
          e4 = (if hf dev ''details'' ''filter_open_state''
                then e3 @ [VeSyncFilterOpenStateSensor dev] else e3)
      in setup_entities_loop types hf devices e4)"

definition setup_entities ::
  "(string, string list) dict \<Rightarrow> (pyobj \<Rightarrow> string \<Rightarrow> string \<Rightarrow> bool) \<Rightarrow> pyobj list
     \<Rightarrow> binary_sensor list" where
  "setup_entities BINARY_SENSOR_TYPES_AIRFRYER hf devices =
     setup_entities_loop BINARY_SENSOR_TYPES_AIRFRYER hf devices []"

text \<open>\<open>self.smarthumidifier.details[key]\<close>\<close>

definition details_item :: "pyobj \<Rightarrow> string \<Rightarrow> error + pyval" where
  "details_item dev key =
     (case map_of dev ''details'' of
        None \<Rightarrow> Inl (AttributeError ''details'')
      | Some (PyDict d) \<Rightarrow>
          (case map_of d key of None \<Rightarrow> Inl (KeyError key) | Some v \<Rightarrow> Inr v)
      | Some _ \<Rightarrow> Inl TypeError)"

text \<open>\<open>self.stype[0]\<close>\<close>

definition stype_0 :: "string list \<Rightarrow> error + string" where
  "stype_0 stype = (case stype of [] \<Rightarrow> Inl IndexError | s # _ \<Rightarrow> Inr s)"

fun is_on :: "binary_sensor \<Rightarrow> error + pyval" where
  "is_on (VeSyncairfryerSensor airfryer stype) =
     (case stype_0 stype of
        Inl e \<Rightarrow> Inl e
      | Inr name \<Rightarrow> Inr (getattr airfryer name (PyBool False)))"
| "is_on (VeSyncOutOfWaterSensor dev) = details_item dev ''water_lacks''"
| "is_on (VeSyncWaterTankLiftedSensor dev) = details_item dev ''water_tank_lifted''"
| "is_on (VeSyncFilterOpenStateSensor dev) = details_item dev ''filter_open_state''"

text \<open>
  \<open>unique_id\<close>. Each class extends \<open>super().unique_id\<close>, the identifier the base class
  \<open>VeSyncBaseEntity\<close> (module \<open>common\<close>, not among the sources) derives from the
  device; it is the parameter \<open>base_unique_id\<close>.
\<close>

fun unique_id :: "(pyobj \<Rightarrow> string) \<Rightarrow> binary_sensor \<Rightarrow> error + string" where
  "unique_id base_unique_id (VeSyncairfryerSensor dev stype) =
     (case stype_0 stype of
        Inl e \<Rightarrow> Inl e
      | Inr s \<Rightarrow> Inr ((base_unique_id dev @ ''-'') @ s))"
| "unique_id base_unique_id (VeSyncOutOfWaterSensor dev) =
     Inr (base_unique_id dev @ ''-out_of_water'')"
| "unique_id base_unique_id (VeSyncWaterTankLiftedSensor dev) =
     Inr (base_unique_id dev @ ''-water_tank_lifted'')"
| "unique_id base_unique_id (VeSyncFilterOpenStateSensor dev) =
     Inr (base_unique_id dev @ ''-filter-open-state'')"

text \<open>
  Devices to evaluate the discovery on: an air fryer, a humidifier whose state mapping is
  \<open>{"water_lacks": True}\<close>, and the same humidifier after a refill. \<open>uuid_of\<close> is an
  identifier of the kind the base class derives from a device.
\<close>

definition example_sensor_types :: "(string, string list) dict" where
  "example_sensor_types =
     [(''is_heating'', [''is_heating'', ''preheating'', ''mdi:pot-steam-outline'']),
      (''is_cooking'', [''is_cooking'', ''cooking'', ''mdi:rice'']),
      (''is_running'', [''is_running'', ''running'', ''mdi:pause''])]"

definition example_fryer :: pyobj where
  "example_fryer = [(''uuid'', PyStr ''f-1''), (''fryer_status'', PyStr ''heating''),
     (''is_heating'', PyBool True)]"

definition example_device :: pyobj where
  "example_device =
     [(''uuid'', PyStr ''h-1''), (''details'', PyDict [(''water_lacks'', PyBool True)])]"

definition example_device_later :: pyobj where
  "example_device_later =
     [(''uuid'', PyStr ''h-1''), (''details'', PyDict [(''water_lacks'', PyBool False)])]"

definition uuid_of :: "pyobj \<Rightarrow> string" where
  "uuid_of dev = (case map_of dev ''uuid'' of Some (PyStr u) \<Rightarrow> u | _ \<Rightarrow> [])"

section \<open>Dictionaries: lookups after stores\<close>

lemma map_of_dict_setitem: "map_of (dict_setitem k v d) = (map_of d)(k \<mapsto> v)"
  by (simp add: dict_setitem_def AList.update_conv')

lemma keys_dict_setitem: "fst ` set (dict_setitem k v d) = insert k (fst ` set d)"
  by (simp add: dict_setitem_def AList.dom_update)

lemma distinct_dict_setitem:
  "distinct (map fst d) \<Longrightarrow> distinct (map fst (dict_setitem k v d))"
  by (simp add: dict_setitem_def AList.distinct_update)

lemma map_of_foldl_setitem:
  "map_of (foldl (\<lambda>d (k, v). dict_setitem k v d) d kvs) = map_of d ++ map_of (rev kvs)"
proof (induction kvs arbitrary: d)
  case Nil
  then show ?case by simp
next
  case (Cons kv kvs)
  obtain k v where kv: "kv = (k, v)" by (cases kv)
  show ?case
    by (rule ext) (simp add: kv Cons.IH map_of_dict_setitem map_add_def split: option.split)
qed

text \<open>Of two entries with one key, the later is the one a lookup finds.\<close>

lemma map_of_dict_of_items: "map_of (dict_of_items kvs) = map_of (rev kvs)"
  by (simp add: dict_of_items_def map_of_foldl_setitem)

lemma keys_foldl_setitem:
  "fst ` set (foldl (\<lambda>d (k, v). dict_setitem k v d) d kvs) = fst ` set d \<union> fst ` set kvs"
proof (induction kvs arbitrary: d)
  case Nil
  then show ?case by simp
next
  case (Cons kv kvs)
  obtain k v where kv: "kv = (k, v)" by (cases kv)
  show ?case
    by (auto simp add: kv Cons.IH keys_dict_setitem)
qed

lemma keys_dict_of_items: "fst ` set (dict_of_items kvs) = fst ` set kvs"
  by (simp add: dict_of_items_def keys_foldl_setitem)

lemma distinct_foldl_setitem:
  "distinct (map fst d) \<Longrightarrow>
   distinct (map fst (foldl (\<lambda>d (k, v). dict_setitem k v d) d kvs))"
proof (induction kvs arbitrary: d)
  case Nil
  then show ?case by simp
next
  case (Cons kv kvs)
  obtain k v where kv: "kv = (k, v)" by (cases kv)
  show ?case
    by (simp add: kv Cons distinct_dict_setitem)
qed

lemma distinct_dict_of_items: "distinct (map fst (dict_of_items kvs))"
  by (simp add: dict_of_items_def distinct_foldl_setitem)

section \<open>The mode tables\<close>

text \<open>With four different vendor strings the display has no repeated key.\<close>

lemma VS_TO_HA_MODE_MAP_distinct:
  assumes "distinct [VS_MODE_AUTO n, VS_MODE_HUMIDITY n, VS_MODE_MANUAL n, VS_MODE_SLEEP n]"
  shows "VS_TO_HA_MODE_MAP n =
    [(VS_MODE_AUTO n, MODE_AUTO n), (VS_MODE_HUMIDITY n, MODE_AUTO n),
     (VS_MODE_MANUAL n, MODE_NORMAL n), (VS_MODE_SLEEP n, MODE_SLEEP n)]"
  using assms by (simp add: VS_TO_HA_MODE_MAP_def dict_of_items_def dict_setitem_def)

text \<open>
  The comprehension stores \<open>MODE_AUTO\<close> twice, first for \<open>VS_MODE_AUTO\<close> and then
  for \<open>VS_MODE_HUMIDITY\<close>; the second store stays.
\<close>

lemma HA_TO_VS_MODE_MAP_distinct:
  assumes "distinct [VS_MODE_AUTO n, VS_MODE_HUMIDITY n, VS_MODE_MANUAL n, VS_MODE_SLEEP n]"
      and "distinct [MODE_AUTO n, MODE_NORMAL n, MODE_SLEEP n]"
  shows "HA_TO_VS_MODE_MAP n =
    [(MODE_AUTO n, VS_MODE_HUMIDITY n), (MODE_NORMAL n, VS_MODE_MANUAL n),
     (MODE_SLEEP n, VS_MODE_SLEEP n)]"
  using assms
  by (simp add: HA_TO_VS_MODE_MAP_def VS_TO_HA_MODE_MAP_distinct dict_of_items_def
      dict_setitem_def)

lemma vesync_tables:
  "VS_TO_HA_MODE_MAP vesync_names =
     [(''auto'', ''auto''), (''humidity'', ''auto''), (''manual'', ''normal''),
      (''sleep'', ''sleep'')]"
  "HA_TO_VS_MODE_MAP vesync_names =
     [(''auto'', ''humidity''), (''normal'', ''manual''), (''sleep'', ''sleep'')]"
  by (simp_all add: HA_TO_VS_MODE_MAP_def VS_TO_HA_MODE_MAP_def dict_of_items_def
      dict_setitem_def vesync_names_def)

text \<open>
  Whatever the strings are, as long as the four vendor strings differ: \<open>VS_MODE_AUTO\<close>
  is a key of the first table and its host mode never translates back to it.
\<close>

lemma auto_never_comes_back:
  assumes "distinct [VS_MODE_AUTO n, VS_MODE_HUMIDITY n, VS_MODE_MANUAL n, VS_MODE_SLEEP n]"
  shows "map_of (VS_TO_HA_MODE_MAP n) (VS_MODE_AUTO n) = Some (MODE_AUTO n)"
    and "map_of (HA_TO_VS_MODE_MAP n) (MODE_AUTO n) \<noteq> Some (VS_MODE_AUTO n)"
  using assms
  by (auto simp add: HA_TO_VS_MODE_MAP_def VS_TO_HA_MODE_MAP_distinct map_of_dict_of_items)

text \<open>
  The other keys do come back: with four different vendor strings and three different
  host strings, only \<open>VS_MODE_AUTO\<close> shares its host mode with a later entry.
\<close>

lemma other_modes_come_back:
  assumes "distinct [VS_MODE_AUTO n, VS_MODE_HUMIDITY n, VS_MODE_MANUAL n, VS_MODE_SLEEP n]"
      and "distinct [MODE_AUTO n, MODE_NORMAL n, MODE_SLEEP n]"
      and "map_of (VS_TO_HA_MODE_MAP n) vs_mode = Some ha_mode"
      and "vs_mode \<noteq> VS_MODE_AUTO n"
  shows "map_of (HA_TO_VS_MODE_MAP n) ha_mode = Some vs_mode"
  using assms
  by (auto simp add: HA_TO_VS_MODE_MAP_distinct VS_TO_HA_MODE_MAP_distinct split: if_splits)

section \<open>Translating one mode\<close>

lemma get_ha_mode_eq:
  "get_ha_mode n m lg =
     (map_of (VS_TO_HA_MODE_MAP n) m,
      if map_of (VS_TO_HA_MODE_MAP n) m = None then lg @ [unknown_mode_warning m] else lg)"
  by (simp add: get_ha_mode_def Let_def)

lemma get_vs_mode_eq:
  "get_vs_mode n m lg =
     (map_of (HA_TO_VS_MODE_MAP n) m,
      if map_of (HA_TO_VS_MODE_MAP n) m = None then lg @ [unknown_mode_warning m] else lg)"
  by (simp add: get_vs_mode_def Let_def)

text \<open>
  Claim C5: for a string that is not a key of its table, \<open>_get_ha_mode\<close> and
  \<open>_get_vs_mode\<close> each return \<open>None\<close>, and the call appends one warning to the log.
  Both functions return a value on every input: neither has an error result.
\<close>

theorem unknown_mode_translates_to_none:
  "(vs_mode \<notin> fst ` set (VS_TO_HA_MODE_MAP n) \<longrightarrow>
      get_ha_mode n vs_mode lg = (None, lg @ [unknown_mode_warning vs_mode])) \<and>
   (ha_mode \<notin> fst ` set (HA_TO_VS_MODE_MAP n) \<longrightarrow>
      get_vs_mode n ha_mode lg = (None, lg @ [unknown_mode_warning ha_mode]))"
  by (simp add: get_ha_mode_eq get_vs_mode_eq map_of_eq_None_iff)

theorem unknown_mode_translates_to_none_witness:
  "''turbo'' \<notin> fst ` set (VS_TO_HA_MODE_MAP vesync_names) \<and>
   get_ha_mode vesync_names ''turbo'' [] =
     (None, [''Unknown mode '' @ [CHR 0x27] @ ''turbo'' @ [CHR 0x27]]) \<and>
   ''humidity'' \<notin> fst ` set (HA_TO_VS_MODE_MAP vesync_names) \<and>
   get_vs_mode vesync_names ''humidity'' [] =
     (None, [''Unknown mode '' @ [CHR 0x27] @ ''humidity'' @ [CHR 0x27]])"
proof -
  have a: "''turbo'' \<notin> fst ` set (VS_TO_HA_MODE_MAP vesync_names)"
    by (simp add: vesync_tables)
  have b: "''humidity'' \<notin> fst ` set (HA_TO_VS_MODE_MAP vesync_names)"
    by (simp add: vesync_tables)
  from unknown_mode_translates_to_none [of "''turbo''" vesync_names "[]" "''humidity''"] a b
  show ?thesis by (simp add: unknown_mode_warning_def)
qed

section \<open>The available modes and their cache\<close>

lemma available_modes_loop_eq:
  "available_modes_loop n ms modes lg =
     (modes @ List.map_filter (map_of (VS_TO_HA_MODE_MAP n)) ms,
      lg @ map unknown_mode_warning
             (filter (\<lambda>m. map_of (VS_TO_HA_MODE_MAP n) m = None) ms))"
  by (induction ms arbitrary: modes lg) (auto simp add: get_ha_mode_eq split: option.split)

lemma available_modes_body_eq:
  "available_modes_body n h lg =
     (case mist_modes h of
        None \<Rightarrow> ([], lg)
      | Some ms \<Rightarrow>
          (List.map_filter (map_of (VS_TO_HA_MODE_MAP n)) ms,
           lg @ map unknown_mode_warning
                  (filter (\<lambda>m. map_of (VS_TO_HA_MODE_MAP n) m = None) ms)))"
  by (simp add: available_modes_body_def available_modes_loop_eq split: option.split)

text \<open>The list the body returns does not depend on the log it starts from.\<close>

lemma fst_available_modes_body:
  "fst (available_modes_body n h lg) = fst (available_modes_body n h [])"
  by (simp add: available_modes_body_eq split: option.split)

lemma cache_ok_new_world: "cache_ok n h (new_world s)"
  by (simp add: cache_ok_def new_world_def)

lemma available_modes_cache_ok:
  "cache_ok n h w \<Longrightarrow> fst (available_modes n h w) = fst (available_modes_body n h [])"
proof (cases "modes_cache w")
  case None
  obtain modes lg where b: "available_modes_body n h (log w) = (modes, lg)"
    by (cases "available_modes_body n h (log w)")
  have "modes = fst (available_modes_body n h [])"
    using fst_available_modes_body [of n h "log w"] b by simp
  then show ?thesis by (simp add: available_modes_def None b)
next
  case (Some ms)
  assume "cache_ok n h w"
  then show ?thesis by (simp add: available_modes_def Some cache_ok_def)
qed

lemma available_modes_keeps_ok:
  "cache_ok n h w \<Longrightarrow> cache_ok n h (snd (available_modes n h w))"
proof (cases "modes_cache w")
  case None
  obtain modes lg where b: "available_modes_body n h (log w) = (modes, lg)"
    by (cases "available_modes_body n h (log w)")
  have "modes = fst (available_modes_body n h [])"
    using fst_available_modes_body [of n h "log w"] b by simp
  then show ?thesis by (simp add: available_modes_def None b cache_ok_def)
next
  case (Some ms)
  assume "cache_ok n h w"
  then show ?thesis by (simp add: available_modes_def Some cache_ok_def)
qed

text \<open>Reading the property calls no vendor method and schedules nothing.\<close>

lemma available_modes_vendor:
  "vs_state (snd (available_modes n h w)) = vs_state w"
  "vs_calls (snd (available_modes n h w)) = vs_calls w"
  "ha_state_updates (snd (available_modes n h w)) = ha_state_updates w"
  by (simp_all add: available_modes_def split: option.split prod.split)

lemma modes_cache_available_modes:
  "modes_cache (snd (available_modes n h w)) = Some (fst (available_modes n h w))"
  by (simp add: available_modes_def split: option.split prod.split)

text \<open>No command writes the cache except through the property, so every command keeps
  \<open>cache_ok\<close>; with \<open>cache_ok_new_world\<close>, every world an adapter reaches has it.\<close>

lemma modes_cache_set_humidity: "modes_cache (snd (set_humidity h x w)) = modes_cache w"
  by (simp add: set_humidity_def Let_def case_prod_beta)

lemma modes_cache_turn_on: "modes_cache (snd (turn_on h w)) = modes_cache w"
  by (simp add: turn_on_def Let_def case_prod_beta)

lemma modes_cache_turn_off: "modes_cache (snd (turn_off h w)) = modes_cache w"
  by (simp add: turn_off_def Let_def case_prod_beta)

lemma modes_cache_set_mode:
  "modes_cache (snd (set_mode n h mode w)) = modes_cache (snd (available_modes n h w))"
  by (simp add: set_mode_def Let_def case_prod_beta)

lemma cache_ok_commands:
  assumes "cache_ok n h w"
  shows "cache_ok n h (snd (set_humidity h x w))"
    and "cache_ok n h (snd (set_mode n h mode w))"
    and "cache_ok n h (snd (turn_on h w))"
    and "cache_ok n h (snd (turn_off h w))"
  using assms available_modes_keeps_ok [OF assms]
  by (simp_all add: cache_ok_def modes_cache_set_humidity modes_cache_turn_on
      modes_cache_turn_off modes_cache_set_mode)

text \<open>
  Claim C7: for a device whose \<open>mist_modes\<close> is a list, \<open>available_modes\<close> is that list
  translated entry by entry through \<open>VS_TO_HA_MODE_MAP\<close>, in order, without the entries
  the table does not know; the read that fills the cache logs one warning for each
  entry it drops, in order.
\<close>

theorem available_modes_translates_mist_modes:
  assumes "mist_modes h = Some ms" and "cache_ok n h w"
  shows "fst (available_modes n h w) = List.map_filter (map_of (VS_TO_HA_MODE_MAP n)) ms \<and>
         (modes_cache w = None \<longrightarrow>
            log (snd (available_modes n h w)) =
              log w @ map unknown_mode_warning
                        (filter (\<lambda>m. map_of (VS_TO_HA_MODE_MAP n) m = None) ms))"
proof -
  have "fst (available_modes n h w) = fst (available_modes_body n h [])"
    using assms(2) by (rule available_modes_cache_ok)
  moreover have "modes_cache w = None \<longrightarrow>
            log (snd (available_modes n h w)) =
              log w @ map unknown_mode_warning
                        (filter (\<lambda>m. map_of (VS_TO_HA_MODE_MAP n) m = None) ms)"
    using assms(1) by (simp add: available_modes_def available_modes_body_eq)
  ultimately show ?thesis using assms(1) by (simp add: available_modes_body_eq)
qed

theorem available_modes_translates_mist_modes_witness:
  "mist_modes (example_humidifier True) = Some [''auto'', ''sleep'', ''turbo'', ''manual''] \<and>
   cache_ok vesync_names (example_humidifier True) (new_world example_state) \<and>
   modes_cache (new_world example_state) = None \<and>
   fst (available_modes vesync_names (example_humidifier True) (new_world example_state)) =
     [''auto'', ''sleep'', ''normal''] \<and>
   log (snd (available_modes vesync_names (example_humidifier True) (new_world example_state))) =
     [''Unknown mode '' @ [CHR 0x27] @ ''turbo'' @ [CHR 0x27]]"
proof -
  have a: "mist_modes (example_humidifier True) = Some [''auto'', ''sleep'', ''turbo'', ''manual'']"
    by (simp add: example_humidifier_def)
  have b: "cache_ok vesync_names (example_humidifier True) (new_world example_state)"
    by (rule cache_ok_new_world)
  have c: "modes_cache (new_world example_state) = None"
    by (simp add: new_world_def)
  from available_modes_translates_mist_modes [OF a b] a b c
  show ?thesis by (simp add: vesync_tables unknown_mode_warning_def new_world_def)
qed

section \<open>The commands\<close>

text \<open>\<open>set_humidity\<close> and \<open>set_mode\<close>: a vendor success schedules one state update and
  the command returns; a vendor failure raises and schedules none.\<close>

lemma set_humidity_success:
  assumes "MIN_HUMIDITY \<le> humidity" and "humidity \<le> MAX_HUMIDITY"
      and "fst (vs_set_humidity h humidity (vs_state w))"
  shows "fst (set_humidity h humidity w) = Inr ()"
    and "ha_state_updates (snd (set_humidity h humidity w)) = Suc (ha_state_updates w)"
  using assms by (simp_all add: set_humidity_def in_range_def Let_def case_prod_beta)

lemma set_humidity_failure:
  assumes "MIN_HUMIDITY \<le> humidity" and "humidity \<le> MAX_HUMIDITY"
      and "\<not> fst (vs_set_humidity h humidity (vs_state w))"
  shows "fst (set_humidity h humidity w) =
           Inl (ValueError ''An error occurred while setting humidity.'')"
    and "ha_state_updates (snd (set_humidity h humidity w)) = ha_state_updates w"
  using assms by (simp_all add: set_humidity_def in_range_def Let_def case_prod_beta)

lemma set_mode_success:
  assumes "mode \<in> set (fst (available_modes n h w))"
      and "fst (vs_set_humidity_mode h (fst (get_vs_mode n mode lg)) (vs_state w))"
  shows "fst (set_mode n h mode w) = Inr ()"
    and "ha_state_updates (snd (set_mode n h mode w)) = Suc (ha_state_updates w)"
proof -
  obtain modes w0 where a: "available_modes n h w = (modes, w0)"
    by (cases "available_modes n h w")
  have v: "vs_state w0 = vs_state w" "ha_state_updates w0 = ha_state_updates w"
    using available_modes_vendor [of n h w] a by simp_all
  have g: "fst (get_vs_mode n mode (log w0)) = fst (get_vs_mode n mode lg)"
    by (simp add: get_vs_mode_eq)
  show "fst (set_mode n h mode w) = Inr ()"
    using assms a v g by (simp add: set_mode_def Let_def case_prod_beta)
  show "ha_state_updates (snd (set_mode n h mode w)) = Suc (ha_state_updates w)"
    using assms a v g by (simp add: set_mode_def Let_def case_prod_beta)
qed

lemma set_mode_failure:
  assumes "mode \<in> set (fst (available_modes n h w))"
      and "\<not> fst (vs_set_humidity_mode h (fst (get_vs_mode n mode lg)) (vs_state w))"
  shows "fst (set_mode n h mode w) = Inl (ValueError ''An error occurred while setting mode.'')"
    and "ha_state_updates (snd (set_mode n h mode w)) = ha_state_updates w"
proof -
  obtain modes w0 where a: "available_modes n h w = (modes, w0)"
    by (cases "available_modes n h w")
  have v: "vs_state w0 = vs_state w" "ha_state_updates w0 = ha_state_updates w"
    using available_modes_vendor [of n h w] a by simp_all
  have g: "fst (get_vs_mode n mode (log w0)) = fst (get_vs_mode n mode lg)"
    by (simp add: get_vs_mode_eq)
  show "fst (set_mode n h mode w) = Inl (ValueError ''An error occurred while setting mode.'')"
    using assms a v g by (simp add: set_mode_def Let_def case_prod_beta)
  show "ha_state_updates (snd (set_mode n h mode w)) = ha_state_updates w"
    using assms a v g by (simp add: set_mode_def Let_def case_prod_beta)
qed

text \<open>\<open>turn_on\<close> and \<open>turn_off\<close>: a vendor failure raises; a vendor success returns,
  and the number of scheduled state updates stays what it was.\<close>

lemma turn_on_failure:
  "\<not> fst (vs_turn_on h (vs_state w)) \<Longrightarrow>
   fst (turn_on h w) = Inl (ValueError ''An error occurred while turning on.'')"
  by (simp add: turn_on_def Let_def case_prod_beta)

lemma turn_off_failure:
  "\<not> fst (vs_turn_off h (vs_state w)) \<Longrightarrow>
   fst (turn_off h w) = Inl (ValueError ''An error occurred while turning off.'')"
  by (simp add: turn_off_def Let_def case_prod_beta)

lemma turn_on_success_no_update:
  "fst (vs_turn_on h (vs_state w)) \<Longrightarrow>
   fst (turn_on h w) = Inr () \<and> ha_state_updates (snd (turn_on h w)) = ha_state_updates w"
  by (simp add: turn_on_def Let_def case_prod_beta)

lemma turn_off_success_no_update:
  "fst (vs_turn_off h (vs_state w)) \<Longrightarrow>
   fst (turn_off h w) = Inr () \<and> ha_state_updates (snd (turn_off h w)) = ha_state_updates w"
  by (simp add: turn_off_def Let_def case_prod_beta)

text \<open>
  Claim C2 says that each of the four commands, when the vendor method succeeds, triggers
  a state refresh and returns. On a device whose vendor methods succeed, \<open>turn_on\<close> and
  \<open>turn_off\<close> return with no state update scheduled, where \<open>set_humidity\<close> on the same
  device schedules one.
\<close>

theorem turn_on_success_schedules_no_update:
  "turn_on (example_humidifier True) (new_world example_state) =
     (Inr (), \<lparr>vs_state = example_state\<lparr>power := True\<rparr>, vs_calls = [TurnOn], log = [],
               ha_state_updates = 0, modes_cache = None\<rparr>) \<and>
   turn_off (example_humidifier True) (new_world example_state) =
     (Inr (), \<lparr>vs_state = example_state\<lparr>power := False\<rparr>, vs_calls = [TurnOff], log = [],
               ha_state_updates = 0, modes_cache = None\<rparr>) \<and>
   set_humidity (example_humidifier True) 50 (new_world example_state) =
     (Inr (), \<lparr>vs_state = example_state\<lparr>target := 50\<rparr>, vs_calls = [SetHumidity 50],
               log = [], ha_state_updates = 1, modes_cache = None\<rparr>)"
  by (simp add: turn_on_def turn_off_def set_humidity_def in_range_def MIN_HUMIDITY_def
      MAX_HUMIDITY_def example_humidifier_def new_world_def Let_def)

text \<open>
  Claim C3: \<open>set_humidity\<close> with an integer below \<open>MIN_HUMIDITY\<close> or above
  \<open>MAX_HUMIDITY\<close> raises the validation error and leaves the world as it was: no vendor
  method is called and the vendor's state is unchanged.
\<close>

theorem set_humidity_out_of_range_rejected:
  assumes "humidity < MIN_HUMIDITY \<or> MAX_HUMIDITY < humidity"
  shows "set_humidity h humidity w =
    (Inl (ValueError
      ''{humidity} is not between {self.min_humidity} and {self.max_humidity} (inclusive)''), w)"
  using assms by (auto simp add: set_humidity_def in_range_def)

theorem set_humidity_out_of_range_rejected_witness:
  "(81 < MIN_HUMIDITY \<or> MAX_HUMIDITY < 81) \<and>
   fst (set_humidity (example_humidifier True) 81 (new_world example_state)) =
     Inl (ValueError
       ''{humidity} is not between {self.min_humidity} and {self.max_humidity} (inclusive)'') \<and>
   vs_calls (snd (set_humidity (example_humidifier True) 81 (new_world example_state))) = [] \<and>
   vs_state (snd (set_humidity (example_humidifier True) 81 (new_world example_state))) =
     example_state"
proof -
  have a: "81 < MIN_HUMIDITY \<or> MAX_HUMIDITY < 81"
    by (simp add: MAX_HUMIDITY_def)
  from set_humidity_out_of_range_rejected
         [OF a, of "example_humidifier True" "new_world example_state"] a
  show ?thesis by (simp add: new_world_def)
qed

text \<open>Inside the bounds the vendor method is called, so the two bounds are exactly what the check tests.\<close>

lemma set_humidity_in_range_calls_vendor:
  assumes "MIN_HUMIDITY \<le> humidity" and "humidity \<le> MAX_HUMIDITY"
  shows "vs_calls (snd (set_humidity h humidity w)) = vs_calls w @ [SetHumidity humidity]"
  using assms by (simp add: set_humidity_def in_range_def Let_def case_prod_beta)

text \<open>
  Claim C4: \<open>set_mode\<close> with a string that is not in \<open>available_modes\<close> raises the
  validation error; the world it leaves is the one the read of \<open>available_modes\<close> left,
  so no vendor method is called and the vendor's state is unchanged.
\<close>

theorem set_mode_unavailable_rejected:
  assumes "mode \<notin> set (fst (available_modes n h w))"
  shows "set_mode n h mode w =
           (Inl (ValueError
              ''{mode} is not one of the valid available modes: {self.available_modes}''),
            snd (available_modes n h w)) \<and>
         vs_calls (snd (set_mode n h mode w)) = vs_calls w \<and>
         vs_state (snd (set_mode n h mode w)) = vs_state w"
proof -
  obtain modes w0 where a: "available_modes n h w = (modes, w0)"
    by (cases "available_modes n h w")
  have v: "vs_state w0 = vs_state w" "vs_calls w0 = vs_calls w"
    using available_modes_vendor [of n h w] a by simp_all
  show ?thesis using assms a v by (simp add: set_mode_def)
qed

theorem set_mode_unavailable_rejected_witness:
  "''turbo'' \<notin> set (fst (available_modes vesync_names (example_humidifier True)
                              (new_world example_state))) \<and>
   fst (set_mode vesync_names (example_humidifier True) ''turbo'' (new_world example_state)) =
     Inl (ValueError
       ''{mode} is not one of the valid available modes: {self.available_modes}'') \<and>
   vs_calls (snd (set_mode vesync_names (example_humidifier True) ''turbo''
                    (new_world example_state))) = [] \<and>
   vs_state (snd (set_mode vesync_names (example_humidifier True) ''turbo''
                    (new_world example_state))) = example_state"
proof -
  have c: "fst (available_modes vesync_names (example_humidifier True) (new_world example_state))
      = [''auto'', ''sleep'', ''normal'']"
    by (simp add: available_modes_def available_modes_body_eq example_humidifier_def
        new_world_def vesync_tables)
  have a: "''turbo'' \<notin> set (fst (available_modes vesync_names (example_humidifier True)
                              (new_world example_state)))"
    by (simp add: c)
  from set_mode_unavailable_rejected [OF a] a
  show ?thesis by (simp add: available_modes_vendor) (simp add: new_world_def)
qed

section \<open>Every available mode has a vendor mode\<close>

lemma keys_HA_TO_VS: "fst ` set (HA_TO_VS_MODE_MAP n) = snd ` set (VS_TO_HA_MODE_MAP n)"
  by (force simp add: HA_TO_VS_MODE_MAP_def keys_dict_of_items image_iff)

lemma set_map_filter_map_of: "set (List.map_filter (map_of d) ms) \<subseteq> snd ` set d"
proof (induction ms)
  case Nil
  then show ?case by simp
next
  case (Cons m ms)
  show ?case
  proof (cases "map_of d m")
    case None
    with Cons show ?thesis by simp
  next
    case (Some y)
    then have "(m, y) \<in> set d" by (rule map_of_SomeD)
    then have "y \<in> snd ` set d" by force
    with Cons Some show ?thesis by simp
  qed
qed

lemma body_modes_have_vs_mode:
  assumes "m \<in> set (fst (available_modes_body n h lg))"
  shows "\<exists>v. map_of (HA_TO_VS_MODE_MAP n) m = Some v"
proof -
  have "m \<in> snd ` set (VS_TO_HA_MODE_MAP n)"
  proof (cases "mist_modes h")
    case None
    with assms show ?thesis by (simp add: available_modes_body_eq)
  next
    case (Some ms)
    from set_map_filter_map_of [of "VS_TO_HA_MODE_MAP n" ms] assms Some
    show ?thesis by (auto simp add: available_modes_body_eq)
  qed
  then have "m \<in> fst ` set (HA_TO_VS_MODE_MAP n)"
    by (simp add: keys_HA_TO_VS)
  then have "map_of (HA_TO_VS_MODE_MAP n) m \<noteq> None"
    by (simp add: map_of_eq_None_iff)
  then show ?thesis by auto
qed

text \<open>
  Claim C10: in a world an adapter can reach, \<open>_get_vs_mode\<close> returns a vendor mode, and
  logs nothing, for every host mode in \<open>available_modes\<close>; so \<open>set_mode\<close> either calls
  no vendor method or calls \<open>set_humidity_mode\<close> once, with a vendor mode string and
  never with \<open>None\<close>.
\<close>

theorem set_mode_never_passes_none:
  assumes "cache_ok n h w"
  shows "(m \<in> set (fst (available_modes n h w)) \<longrightarrow>
            (\<exists>v. get_vs_mode n m lg = (Some v, lg))) \<and>
         (vs_calls (snd (set_mode n h mode w)) = vs_calls w \<or>
          (\<exists>v. vs_calls (snd (set_mode n h mode w)) =
                 vs_calls w @ [SetHumidityMode (Some v)]))"
proof -
  have eq: "fst (available_modes n h w) = fst (available_modes_body n h [])"
    using assms by (rule available_modes_cache_ok)
  have tr: "\<exists>v. get_vs_mode n x l = (Some v, l)"
    if "x \<in> set (fst (available_modes n h w))" for x l
  proof -
    from that eq have "x \<in> set (fst (available_modes_body n h []))" by simp
    then obtain v where "map_of (HA_TO_VS_MODE_MAP n) x = Some v"
      using body_modes_have_vs_mode by blast
    then show ?thesis by (simp add: get_vs_mode_eq)
  qed
  obtain modes w0 where a: "available_modes n h w = (modes, w0)"
    by (cases "available_modes n h w")
  have v: "vs_calls w0 = vs_calls w"
    using available_modes_vendor [of n h w] a by simp
  have calls: "vs_calls (snd (set_mode n h mode w)) = vs_calls w \<or>
          (\<exists>v. vs_calls (snd (set_mode n h mode w)) =
                 vs_calls w @ [SetHumidityMode (Some v)])"
  proof (cases "mode \<in> set modes")
    case True
    with a tr [of mode "log w0"] obtain u
      where "get_vs_mode n mode (log w0) = (Some u, log w0)"
      by auto
    with True a v show ?thesis by (simp add: set_mode_def Let_def case_prod_beta)
  next
    case False
    with a v show ?thesis by (simp add: set_mode_def)
  qed
  from tr [of m lg] calls show ?thesis by blast
qed

theorem set_mode_never_passes_none_witness:
  "cache_ok vesync_names (example_humidifier True) (new_world example_state) \<and>
   ''auto'' \<in> set (fst (available_modes vesync_names (example_humidifier True)
                          (new_world example_state))) \<and>
   get_vs_mode vesync_names ''auto'' [] = (Some ''humidity'', []) \<and>
   vs_calls (snd (set_mode vesync_names (example_humidifier True) ''auto''
                    (new_world example_state))) = [SetHumidityMode (Some ''humidity'')]"
proof -
  have b: "cache_ok vesync_names (example_humidifier True) (new_world example_state)"
    by (rule cache_ok_new_world)
  have c: "fst (available_modes vesync_names (example_humidifier True) (new_world example_state))
      = [''auto'', ''sleep'', ''normal'']"
    by (simp add: available_modes_def available_modes_body_eq example_humidifier_def
        new_world_def vesync_tables)
  have d: "vs_calls (snd (set_mode vesync_names (example_humidifier True) ''auto''
                            (new_world example_state))) = [SetHumidityMode (Some ''humidity'')]"
    by (simp add: set_mode_def available_modes_def available_modes_body_eq
        example_humidifier_def new_world_def vesync_tables get_vs_mode_eq Let_def)
  from set_mode_never_passes_none [OF b, of "''auto''" "[]" "''auto''"] b c d
  show ?thesis by (simp add: get_vs_mode_eq vesync_tables)
qed

section \<open>The vendor mode sent for the host mode auto\<close>

text \<open>
  Claim C1 says that every key of \<open>VS_TO_HA_MODE_MAP\<close>, translated to the host mode and
  back through \<open>HA_TO_VS_MODE_MAP\<close>, comes back unchanged. The key \<open>auto\<close> does not:
  its host mode is \<open>auto\<close>, and the inverted table holds \<open>humidity\<close> for that host
  mode, because the comprehension stores the entry of \<open>VS_MODE_HUMIDITY\<close> over the
  entry of \<open>VS_MODE_AUTO\<close>. At the adapter: a device that lists the vendor mode
  \<open>auto\<close> and not \<open>humidity\<close> has \<open>auto\<close> among its \<open>available_modes\<close>, and
  \<open>set_mode\<close> with \<open>auto\<close> passes validation, sends \<open>humidity\<close> to the vendor,
  which refuses a mode the device does not list, and raises.
\<close>

theorem auto_round_trip_returns_humidity:
  "''auto'' \<in> fst ` set (VS_TO_HA_MODE_MAP vesync_names) \<and>
   map_of (VS_TO_HA_MODE_MAP vesync_names) ''auto'' = Some ''auto'' \<and>
   map_of (HA_TO_VS_MODE_MAP vesync_names) ''auto'' = Some ''humidity'' \<and>
   ''humidity'' \<noteq> ''auto'' \<and>
   mist_modes (example_humidifier True) = Some [''auto'', ''sleep'', ''turbo'', ''manual''] \<and>
   fst (available_modes vesync_names (example_humidifier True) (new_world example_state)) =
     [''auto'', ''sleep'', ''normal''] \<and>
   set_mode vesync_names (example_humidifier True) ''auto'' (new_world example_state) =
     (Inl (ValueError ''An error occurred while setting mode.''),
      \<lparr>vs_state = example_state, vs_calls = [SetHumidityMode (Some ''humidity'')],
       log = [''Unknown mode '' @ [CHR 0x27] @ ''turbo'' @ [CHR 0x27]],
       ha_state_updates = 0, modes_cache = Some [''auto'', ''sleep'', ''normal'']\<rparr>)"
proof -
  have t: "map_of (VS_TO_HA_MODE_MAP vesync_names) ''auto'' = Some ''auto'' \<and>
      map_of (HA_TO_VS_MODE_MAP vesync_names) ''auto'' = Some ''humidity'' \<and>
      ''auto'' \<in> fst ` set (VS_TO_HA_MODE_MAP vesync_names)"
    by (simp add: vesync_tables)
  have m: "mist_modes (example_humidifier True) = Some [''auto'', ''sleep'', ''turbo'', ''manual'']"
    by (simp add: example_humidifier_def)
  have a: "available_modes vesync_names (example_humidifier True) (new_world example_state) =
      ([''auto'', ''sleep'', ''normal''],
       \<lparr>vs_state = example_state, vs_calls = [],
        log = [''Unknown mode '' @ [CHR 0x27] @ ''turbo'' @ [CHR 0x27]],
        ha_state_updates = 0, modes_cache = Some [''auto'', ''sleep'', ''normal'']\<rparr>)"
    by (simp add: available_modes_def available_modes_body_eq m new_world_def vesync_tables
        unknown_mode_warning_def)
  have s: "set_mode vesync_names (example_humidifier True) ''auto'' (new_world example_state) =
     (Inl (ValueError ''An error occurred while setting mode.''),
      \<lparr>vs_state = example_state, vs_calls = [SetHumidityMode (Some ''humidity'')],
       log = [''Unknown mode '' @ [CHR 0x27] @ ''turbo'' @ [CHR 0x27]],
       ha_state_updates = 0, modes_cache = Some [''auto'', ''sleep'', ''normal'']\<rparr>)"
  proof -
    have r: "vs_set_humidity_mode (example_humidifier True) (Some ''humidity'') example_state =
        (False, example_state)"
      by (simp add: example_humidifier_def)
    show ?thesis by (simp add: set_mode_def a get_vs_mode_eq vesync_tables r)
  qed
  from t m a s show ?thesis by simp
qed

text \<open>On the same device the host mode \<open>sleep\<close> is sent as \<open>sleep\<close> and accepted.\<close>

lemma set_mode_sleep_accepted:
  "set_mode vesync_names (example_humidifier True) ''sleep'' (new_world example_state) =
     (Inr (),
      \<lparr>vs_state = example_state\<lparr>mist := Some ''sleep''\<rparr>,
       vs_calls = [SetHumidityMode (Some ''sleep'')],
       log = [''Unknown mode '' @ [CHR 0x27] @ ''turbo'' @ [CHR 0x27]],
       ha_state_updates = 1, modes_cache = Some [''auto'', ''sleep'', ''normal'']\<rparr>)"
  by (simp add: set_mode_def available_modes_def available_modes_body_eq new_world_def
      vesync_tables unknown_mode_warning_def get_vs_mode_eq example_humidifier_def)

section \<open>The state attributes\<close>

lemma spec_rekey_renamed: "map_of tbl k = Some k' \<Longrightarrow> spec_rekey tbl sa k = k'"
proof -
  assume a: "map_of tbl k = Some k'"
  then have "(k, k') \<in> set tbl" by (rule map_of_SomeD)
  then have "k \<in> fst ` set tbl" by force
  with a show ?thesis by (simp add: spec_rekey_def)
qed

lemma spec_rekey_reserved:
  "map_of tbl k = None \<Longrightarrow> k \<in> fst ` set sa \<Longrightarrow> spec_rekey tbl sa k = ''vs_'' @ k"
  by (simp add: spec_rekey_def map_of_eq_None_iff)

lemma spec_rekey_other:
  "map_of tbl k = None \<Longrightarrow> k \<notin> fst ` set sa \<Longrightarrow> spec_rekey tbl sa k = k"
  by (simp add: spec_rekey_def map_of_eq_None_iff)

lemma extra_state_attributes_loop_eq:
  "extra_state_attributes_loop tbl sa kvs attr =
     foldl (\<lambda>d (k, v). dict_setitem k v d) attr
       (map (\<lambda>(k, v). (spec_rekey tbl sa k, v)) kvs)"
proof (induction kvs arbitrary: attr)
  case Nil
  then show ?case by simp
next
  case (Cons kv kvs)
  obtain k v where kv: "kv = (k, v)" by (cases kv)
  show ?case
  proof (cases "map_of tbl k")
    case None
    then show ?thesis
      by (simp add: kv Cons.IH spec_rekey_reserved spec_rekey_other)
  next
    case (Some k')
    then show ?thesis by (simp add: kv Cons.IH spec_rekey_renamed)
  qed
qed

text \<open>
  Claim C8: \<open>extra_state_attributes\<close> is the dict that results from storing, for each
  pair of \<open>details\<close> in order, the pair's value under the key that the three ordered
  rules give (\<open>spec_rekey\<close>: the renamed key if the key is in the rename table, else the
  key with \<open>vs_\<close> in front if it is a reserved state-attribute name, else the key
  itself). Its keys are exactly the keys the rules give, and where no two pairs are
  given the same key, each pair's value stands under its key.
\<close>

theorem extra_state_attributes_rekeys:
  "extra_state_attributes tbl sa details =
     dict_of_items (map (\<lambda>(k, v). (spec_rekey tbl sa k, v)) details) \<and>
   fst ` set (extra_state_attributes tbl sa details) = spec_rekey tbl sa ` fst ` set details \<and>
   ((k, v) \<in> set details \<and> distinct (map (spec_rekey tbl sa) (map fst details)) \<longrightarrow>
      map_of (extra_state_attributes tbl sa details) (spec_rekey tbl sa k) = Some v)"
proof -
  let ?items = "map (\<lambda>(k, v). (spec_rekey tbl sa k, v)) details"
  have eq: "extra_state_attributes tbl sa details = dict_of_items ?items"
    by (simp add: extra_state_attributes_def extra_state_attributes_loop_eq dict_of_items_def)
  have keys: "fst ` set (extra_state_attributes tbl sa details) =
      spec_rekey tbl sa ` fst ` set details"
    by (force simp add: eq keys_dict_of_items image_iff)
  have val: "map_of (extra_state_attributes tbl sa details) (spec_rekey tbl sa k) = Some v"
    if "(k, v) \<in> set details" and "distinct (map (spec_rekey tbl sa) (map fst details))"
  proof -
    have f: "map fst ?items = map (spec_rekey tbl sa) (map fst details)"
      by (induction details) auto
    have "distinct (map fst (rev ?items))"
      using that(2) f by (simp add: rev_map [symmetric] del: map_map)
    moreover have "(spec_rekey tbl sa k, v) \<in> set (rev ?items)"
      using that(1) by force
    ultimately have "map_of (rev ?items) (spec_rekey tbl sa k) = Some v"
      by (rule map_of_is_SomeI)
    then show ?thesis by (simp add: eq map_of_dict_of_items)
  qed
  from eq keys val show ?thesis by blast
qed

theorem extra_state_attributes_rekeys_witness:
  "(''mode'', PyStr ''manual'') \<in>
     set [(''humidity'', PyInt 40), (''mode'', PyStr ''manual''),
          (''water_lacks'', PyBool False)] \<and>
   distinct (map (spec_rekey [(''humidity'', ''current_humidity'')]
                    [(''humidity'', PyInt 45), (''mode'', PyStr ''normal'')])
               (map fst [(''humidity'', PyInt 40), (''mode'', PyStr ''manual''),
                         (''water_lacks'', PyBool False)])) \<and>
   extra_state_attributes [(''humidity'', ''current_humidity'')]
       [(''humidity'', PyInt 45), (''mode'', PyStr ''normal'')]
       [(''humidity'', PyInt 40), (''mode'', PyStr ''manual''), (''water_lacks'', PyBool False)] =
     [(''current_humidity'', PyInt 40), (''vs_mode'', PyStr ''manual''),
      (''water_lacks'', PyBool False)] \<and>
   map_of (extra_state_attributes [(''humidity'', ''current_humidity'')]
       [(''humidity'', PyInt 45), (''mode'', PyStr ''normal'')]
       [(''humidity'', PyInt 40), (''mode'', PyStr ''manual''), (''water_lacks'', PyBool False)])
     ''vs_mode'' = Some (PyStr ''manual'')"
proof -
  let ?tbl = "[(''humidity'', ''current_humidity'')]"
  let ?sa = "[(''humidity'', PyInt 45), (''mode'', PyStr ''normal'')]"
  let ?details = "[(''humidity'', PyInt 40), (''mode'', PyStr ''manual''),
                   (''water_lacks'', PyBool False)]"
  have a: "(''mode'', PyStr ''manual'') \<in> set ?details" by simp
  have b: "distinct (map (spec_rekey ?tbl ?sa) (map fst ?details))"
    by (simp add: spec_rekey_def)
  from extra_state_attributes_rekeys [of ?tbl ?sa ?details "''mode''" "PyStr ''manual''"] a b
  show ?thesis
    by (simp add: spec_rekey_def dict_of_items_def dict_setitem_def)
qed

text \<open>Two state keys that are given one key: the later pair's value is the one kept.\<close>

lemma extra_state_attributes_collision:
  "extra_state_attributes [(''humidity'', ''current_humidity'')] ([] :: (string, pyval) dict)
     [(''current_humidity'', PyInt 40), (''humidity'', PyInt 50)] =
   [(''current_humidity'', PyInt 50)]"
  by (simp add: extra_state_attributes_def dict_setitem_def)

section \<open>Discovery of the binary sensors\<close>

lemma setup_entities_loop_eq:
  "setup_entities_loop T hf devs es =
     es @ concat (map (\<lambda>dev.
       (if hasattr dev ''fryer_status''
        then map (VeSyncairfryerSensor dev) (map snd T) else []) @
       (if hf dev ''details'' ''water_lacks'' then [VeSyncOutOfWaterSensor dev] else []) @
       (if hf dev ''details'' ''water_tank_lifted''
        then [VeSyncWaterTankLiftedSensor dev] else []) @
       (if hf dev ''details'' ''filter_open_state''
        then [VeSyncFilterOpenStateSensor dev] else []))
       devs)"
  by (induction devs arbitrary: es) (simp_all add: Let_def)

lemma has_feature_key:
  "map_of dev dictionary = Some (PyDict d) \<Longrightarrow>
   has_feature dev dictionary key = (key \<in> fst ` set d)"
  by (simp add: has_feature_def)

text \<open>
  Claim C6: for a batch \<open>devs\<close>, the discovery result holds a sensor of a kind for a
  device exactly when the device is in the batch and has the kind's capability: the
  three \<open>details\<close> keys as \<open>has_feature\<close> reports them (for any \<open>has_feature\<close> handed
  to the loop), and the \<open>fryer_status\<close> attribute for each sensor type of the air-fryer
  table. With \<open>has_feature\<close> as the specification describes it, a device whose
  \<open>details\<close> is \<open>{"water_lacks": True}\<close> and that has no \<open>fryer_status\<close> gives exactly
  one adapter, the out-of-water sensor, and its \<open>is_on\<close> is \<open>True\<close>.
\<close>

theorem setup_entities_by_capability:
  "(VeSyncOutOfWaterSensor d \<in> set (setup_entities T hf devs)) =
     (d \<in> set devs \<and> hf d ''details'' ''water_lacks'') \<and>
   (VeSyncWaterTankLiftedSensor d \<in> set (setup_entities T hf devs)) =
     (d \<in> set devs \<and> hf d ''details'' ''water_tank_lifted'') \<and>
   (VeSyncFilterOpenStateSensor d \<in> set (setup_entities T hf devs)) =
     (d \<in> set devs \<and> hf d ''details'' ''filter_open_state'') \<and>
   (VeSyncairfryerSensor d stype \<in> set (setup_entities T hf devs)) =
     (d \<in> set devs \<and> hasattr d ''fryer_status'' \<and> stype \<in> snd ` set T) \<and>
   (map_of dev ''details'' = Some (PyDict [(''water_lacks'', PyBool True)]) \<and>
    \<not> hasattr dev ''fryer_status'' \<longrightarrow>
      setup_entities T has_feature [dev] = [VeSyncOutOfWaterSensor dev] \<and>
      is_on (VeSyncOutOfWaterSensor dev) = Inr (PyBool True))"
proof -
  have 1: "(VeSyncOutOfWaterSensor d \<in> set (setup_entities T hf devs)) =
     (d \<in> set devs \<and> hf d ''details'' ''water_lacks'')"
    by (auto simp add: setup_entities_def setup_entities_loop_eq)
  have 2: "(VeSyncWaterTankLiftedSensor d \<in> set (setup_entities T hf devs)) =
     (d \<in> set devs \<and> hf d ''details'' ''water_tank_lifted'')"
    by (auto simp add: setup_entities_def setup_entities_loop_eq)
  have 3: "(VeSyncFilterOpenStateSensor d \<in> set (setup_entities T hf devs)) =
     (d \<in> set devs \<and> hf d ''details'' ''filter_open_state'')"
    by (auto simp add: setup_entities_def setup_entities_loop_eq)
  have 4: "(VeSyncairfryerSensor d stype \<in> set (setup_entities T hf devs)) =
     (d \<in> set devs \<and> hasattr d ''fryer_status'' \<and> stype \<in> snd ` set T)"
    by (auto simp add: setup_entities_def setup_entities_loop_eq)
  have 5: "setup_entities T has_feature [dev] = [VeSyncOutOfWaterSensor dev] \<and>
      is_on (VeSyncOutOfWaterSensor dev) = Inr (PyBool True)"
    if "map_of dev ''details'' = Some (PyDict [(''water_lacks'', PyBool True)])"
      and "\<not> hasattr dev ''fryer_status''"
    using that by (simp add: setup_entities_def has_feature_def details_item_def)
  from 1 2 3 4 5 show ?thesis by blast
qed

theorem setup_entities_by_capability_witness:
  "map_of example_device ''details'' = Some (PyDict [(''water_lacks'', PyBool True)]) \<and>
   \<not> hasattr example_device ''fryer_status'' \<and>
   setup_entities example_sensor_types has_feature [example_device] =
     [VeSyncOutOfWaterSensor example_device] \<and>
   is_on (VeSyncOutOfWaterSensor example_device) = Inr (PyBool True) \<and>
   VeSyncWaterTankLiftedSensor example_device \<notin>
     set (setup_entities example_sensor_types has_feature [example_fryer, example_device]) \<and>
   VeSyncairfryerSensor example_fryer [''is_cooking'', ''cooking'', ''mdi:rice''] \<in>
     set (setup_entities example_sensor_types has_feature [example_fryer, example_device])"
proof -
  have a: "map_of example_device ''details'' = Some (PyDict [(''water_lacks'', PyBool True)])"
    by (simp add: example_device_def)
  have b: "\<not> hasattr example_device ''fryer_status''"
    by (simp add: example_device_def hasattr_def)
  have c: "\<not> has_feature example_device ''details'' ''water_tank_lifted''"
    by (simp add: example_device_def has_feature_def)
  have d: "hasattr example_fryer ''fryer_status''"
    by (simp add: example_fryer_def hasattr_def)
  have e: "[''is_cooking'', ''cooking'', ''mdi:rice''] \<in> snd ` set example_sensor_types"
    by (simp add: example_sensor_types_def)
  from setup_entities_by_capability [where d = example_fryer and T = example_sensor_types
      and hf = has_feature and devs = "[example_fryer, example_device]"
      and stype = "[''is_cooking'', ''cooking'', ''mdi:rice'']" and dev = example_device]
    setup_entities_by_capability [where d = example_device and T = example_sensor_types
      and hf = has_feature and devs = "[example_fryer, example_device]"
      and stype = "[]" and dev = example_device]
    a b c d e
  show ?thesis by simp
qed

section \<open>The identifiers of the binary sensors\<close>

text \<open>
  Claim C9: the \<open>unique_id\<close> of a sensor is the device's base identifier followed by a
  suffix fixed by the sensor's class (for an air-fryer sensor, by its \<open>stype\<close>); so two
  adapters of one kind, built on device objects with the same base identifier, have the
  same \<open>unique_id\<close>, whatever else differs between the two objects.
\<close>

theorem unique_id_from_identity_and_kind:
  assumes "base_unique_id dev = base_unique_id dev'"
  shows "unique_id base_unique_id (VeSyncairfryerSensor dev stype) =
           unique_id base_unique_id (VeSyncairfryerSensor dev' stype) \<and>
         unique_id base_unique_id (VeSyncOutOfWaterSensor dev) =
           unique_id base_unique_id (VeSyncOutOfWaterSensor dev') \<and>
         unique_id base_unique_id (VeSyncWaterTankLiftedSensor dev) =
           unique_id base_unique_id (VeSyncWaterTankLiftedSensor dev') \<and>
         unique_id base_unique_id (VeSyncFilterOpenStateSensor dev) =
           unique_id base_unique_id (VeSyncFilterOpenStateSensor dev') \<and>
         unique_id base_unique_id (VeSyncairfryerSensor dev (s # rest)) =
           Inr (base_unique_id dev @ ''-'' @ s) \<and>
         unique_id base_unique_id (VeSyncOutOfWaterSensor dev) =
           Inr (base_unique_id dev @ ''-out_of_water'') \<and>
         unique_id base_unique_id (VeSyncWaterTankLiftedSensor dev) =
           Inr (base_unique_id dev @ ''-water_tank_lifted'') \<and>
         unique_id base_unique_id (VeSyncFilterOpenStateSensor dev) =
           Inr (base_unique_id dev @ ''-filter-open-state'')"
  using assms by (simp add: stype_0_def split: list.split)

theorem unique_id_from_identity_and_kind_witness:
  "uuid_of example_device = uuid_of example_device_later \<and>
   example_device \<noteq> example_device_later \<and>
   unique_id uuid_of (VeSyncOutOfWaterSensor example_device) = Inr ''h-1-out_of_water'' \<and>
   unique_id uuid_of (VeSyncOutOfWaterSensor example_device_later) = Inr ''h-1-out_of_water'' \<and>
   unique_id uuid_of (VeSyncairfryerSensor example_device
       [''is_heating'', ''preheating'', ''mdi:pot-steam-outline'']) = Inr ''h-1-is_heating''"
proof -
  have a: "uuid_of example_device = uuid_of example_device_later"
    by (simp add: uuid_of_def example_device_def example_device_later_def)
  have b: "example_device \<noteq> example_device_later"
    by (simp add: example_device_def example_device_later_def)
  have c: "uuid_of example_device = ''h-1''"
    by (simp add: uuid_of_def example_device_def)
  from unique_id_from_identity_and_kind
         [OF a, of "[''is_heating'', ''preheating'', ''mdi:pot-steam-outline'']"
            "''is_heating''" "[''preheating'', ''mdi:pot-steam-outline'']"] a b c
  show ?thesis by (simp add: stype_0_def)
qed

end
